theory Spec2Isabelle
  imports Complex_Main "HOL-Library.Sublist"
begin

section \<open>Numbers\<close>

text \<open>
  The simulators compute on JavaScript numbers (and, in the shader, GLSL floats).
  They are modelled as exact reals: rounding (that of a store into a
  \<open>Float32Array\<close> included), overflow, NaN and the infinities are outside the model. The one place where the source can leave the finite
  numbers by itself is the division by \<open>mass\<close> in \<open>Spring.update\<close>; HOL's
  \<open>x / 0 = 0\<close> is not what JavaScript computes there, so every statement below
  that depends on the value of that quotient assumes a non-zero mass.
  Timestamps (\<open>Date.now()\<close>, whole milliseconds) are integers.
\<close>

section \<open>Scalar and vector springs (AnimationOrchestrator.ts)\<close>

record SpringConfig =
  cfg_tension :: real
  cfg_friction :: real
  cfg_mass :: real

record Spring =
  position :: real
  velocity :: real
  target :: real
  tension :: real
  friction :: real
  mass :: real

text \<open>The default configuration of the constructor's second parameter.\<close>

definition Spring_default_config :: SpringConfig where
  "Spring_default_config = \<lparr>cfg_tension = 400, cfg_friction = 30, cfg_mass = 1\<rparr>"

text \<open>\<open>new Spring(initialValue, config)\<close>: six assignments, no check.\<close>

definition Spring_new :: "real \<Rightarrow> SpringConfig \<Rightarrow> Spring" where
  "Spring_new initialValue config =
     \<lparr>position = initialValue,
      velocity = 0,
      target = initialValue,
      tension = cfg_tension config,
      friction = cfg_friction config,
      mass = cfg_mass config\<rparr>"

definition Spring_setTarget :: "real \<Rightarrow> Spring \<Rightarrow> Spring" where
  "Spring_setTarget t s = s\<lparr>target := t\<rparr>"

text \<open>
  \<open>update(deltaTime)\<close> mutates velocity, then position, and returns the new
  position; the model returns the new state together with the returned number.
\<close>

definition Spring_update :: "real \<Rightarrow> Spring \<Rightarrow> Spring \<times> real" where
  "Spring_update deltaTime s =
     (let dt = min (deltaTime / 1000) (64 / 1000);
          displacement = position s - target s;
          springForce = - tension s * displacement;
          dampingForce = - friction s * velocity s;
          acceleration = (springForce + dampingForce) / mass s;
          s1 = s\<lparr>velocity := velocity s + acceleration * dt\<rparr>;
          s2 = s1\<lparr>position := position s1 + velocity s1 * dt\<rparr>
      in (s2, position s2))"

definition Spring_getValue :: "Spring \<Rightarrow> real" where
  "Spring_getValue s = position s"

definition Spring_isAtRest :: "real \<Rightarrow> Spring \<Rightarrow> bool" where
  "Spring_isAtRest threshold s \<longleftrightarrow>
     \<bar>velocity s\<bar> < threshold \<and> \<bar>position s - target s\<bar> < threshold"

definition Spring_reset :: "real \<Rightarrow> Spring \<Rightarrow> Spring" where
  "Spring_reset v s = s\<lparr>position := v, velocity := 0, target := v\<rparr>"

text \<open>\<open>Spring3D\<close> holds a 3-tuple of springs built from one configuration.\<close>

record Spring3D =
  spring0 :: Spring
  spring1 :: Spring
  spring2 :: Spring

definition Spring3D_new :: "real \<times> real \<times> real \<Rightarrow> SpringConfig \<Rightarrow> Spring3D" where
  "Spring3D_new initialValue config =
     (case initialValue of (x, y, z) \<Rightarrow>
        \<lparr>spring0 = Spring_new x config,
         spring1 = Spring_new y config,
         spring2 = Spring_new z config\<rparr>)"

definition Spring3D_setTarget :: "real \<times> real \<times> real \<Rightarrow> Spring3D \<Rightarrow> Spring3D" where
  "Spring3D_setTarget t v =
     (case t of (x, y, z) \<Rightarrow>
        \<lparr>spring0 = Spring_setTarget x (spring0 v),
         spring1 = Spring_setTarget y (spring1 v),
         spring2 = Spring_setTarget z (spring2 v)\<rparr>)"

definition Spring3D_update :: "real \<Rightarrow> Spring3D \<Rightarrow> Spring3D \<times> (real \<times> real \<times> real)" where
  "Spring3D_update deltaTime v =
     (let (a, x) = Spring_update deltaTime (spring0 v);
          (b, y) = Spring_update deltaTime (spring1 v);
          (c, z) = Spring_update deltaTime (spring2 v)
      in (\<lparr>spring0 = a, spring1 = b, spring2 = c\<rparr>, (x, y, z)))"

definition Spring3D_getValue :: "Spring3D \<Rightarrow> real \<times> real \<times> real" where
  "Spring3D_getValue v =
     (Spring_getValue (spring0 v), Spring_getValue (spring1 v), Spring_getValue (spring2 v))"

definition Spring3D_isAtRest :: "real \<Rightarrow> Spring3D \<Rightarrow> bool" where
  "Spring3D_isAtRest threshold v \<longleftrightarrow>
     Spring_isAtRest threshold (spring0 v) \<and> Spring_isAtRest threshold (spring1 v)
       \<and> Spring_isAtRest threshold (spring2 v)"

text \<open>A caller's frame loop: one \<open>update\<close> per measured delta time, in order.\<close>

fun Spring3D_updates :: "real list \<Rightarrow> Spring3D \<Rightarrow> Spring3D" where
  "Spring3D_updates [] v = v"
| "Spring3D_updates (d # ds) v = Spring3D_updates ds (fst (Spring3D_update d v))"

section \<open>The ripple store (the \<open>ripples\<close> slice of the zustand store)\<close>

record Ripple =
  ripple_id :: string
  ripple_position :: "real \<times> real"
  strength :: real
  time :: int

text \<open>
  Only the \<open>ripples\<close> field of the application state is read or written by the two
  ripple actions; the other fields of the store ride along in the record extension.
\<close>

record AppState =
  ripples :: "Ripple list"

definition initialState :: AppState where
  "initialState = \<lparr>ripples = []\<rparr>"

text \<open>JavaScript's \<open>xs.slice(-n)\<close>: the last \<open>n\<close> elements, all of them when there are fewer.\<close>

definition slice_last :: "nat \<Rightarrow> 'a list \<Rightarrow> 'a list" where
  "slice_last n xs = drop (length xs - n) xs"

text \<open>
  \<open>addRipple(position, strength)\<close>. The two readings of the environment are
  parameters: \<open>newId\<close> is what \<open>generateRippleId()\<close> returned and \<open>now\<close> what
  \<open>Date.now()\<close> returned for the \<open>time\<close> field.
\<close>

definition addRipple ::
  "string \<Rightarrow> int \<Rightarrow> real \<times> real \<Rightarrow> real \<Rightarrow> 'a AppState_scheme \<Rightarrow> 'a AppState_scheme" where
  "addRipple newId now pos str state =
     (let newRipple = \<lparr>ripple_id = newId, ripple_position = pos, strength = str, time = now\<rparr>;
          updatedRipples = slice_last 10 (ripples state @ [newRipple])
      in state\<lparr>ripples := updatedRipples\<rparr>)"

definition clearExpiredRipples :: "int \<Rightarrow> 'a AppState_scheme \<Rightarrow> 'a AppState_scheme" where
  "clearExpiredRipples now state =
     state\<lparr>ripples := filter (\<lambda>r. now - time r < 5000) (ripples state)\<rparr>"

text \<open>
  A history of the store: every action with the clock reading it saw. \<open>run\<close> replays
  a history from the initial state, \<open>created\<close> lists every ripple the history made, in
  the order of the calls.
\<close>

datatype RippleAction =
  AddRipple string int "real \<times> real" real
| ClearExpired int

fun step :: "RippleAction \<Rightarrow> AppState \<Rightarrow> AppState" where
  "step (AddRipple newId now pos str) state = addRipple newId now pos str state"
| "step (ClearExpired now) state = clearExpiredRipples now state"

definition run :: "RippleAction list \<Rightarrow> AppState" where
  "run acts = fold step acts initialState"

fun created :: "RippleAction list \<Rightarrow> Ripple list" where
  "created [] = []"
| "created (AddRipple newId now pos str # acts) =
     \<lparr>ripple_id = newId, ripple_position = pos, strength = str, time = now\<rparr> # created acts"
| "created (ClearExpired now # acts) = created acts"

fun clock :: "RippleAction \<Rightarrow> int" where
  "clock (AddRipple newId now pos str) = now"
| "clock (ClearExpired now) = now"

fun isAdd :: "RippleAction \<Rightarrow> bool" where
  "isAdd (AddRipple newId now pos str) = True"
| "isAdd (ClearExpired now) = False"

section \<open>Ripple uniforms (MercurySurface.tsx, \<open>useFrame\<close>)\<close>

definition RIPPLE_maxRipples :: int where
  "RIPPLE_maxRipples = 10"

text \<open>
  The shader material's uniforms that the ripple code reads and writes (the camera
  position and the environment map, which the frame callback also sets, play no part
  in the ripples and are left out). The three arrays are allocated once, with ten
  slots each, and only ever written at indices below ten, so a list update never
  falls outside them.
\<close>

record Uniforms =
  uTime :: real
  uRipples :: "(real \<times> real) list"
  uRippleStrengths :: "real list"
  uRippleTimes :: "real list"

definition initialUniforms :: Uniforms where
  "initialUniforms =
     \<lparr>uTime = 0,
      uRipples = replicate 10 (0, 0),
      uRippleStrengths = replicate 10 0,
      uRippleTimes = replicate 10 0\<rparr>"

text \<open>The body of \<open>for (let i = 0; i < 10; i++)\<close>, then the loop itself.\<close>

definition resetSlot :: "nat \<Rightarrow> Uniforms \<Rightarrow> Uniforms" where
  "resetSlot i u =
     u\<lparr>uRipples := (uRipples u)[i := (0, 0)],
       uRippleStrengths := (uRippleStrengths u)[i := 0],
       uRippleTimes := (uRippleTimes u)[i := 0]\<rparr>"

definition resetArrays :: "Uniforms \<Rightarrow> Uniforms" where
  "resetArrays u = fold resetSlot [0..<10] u"

text \<open>
  \<open>for (let i = ripples.length - 1; i >= 0 && activeCount < 10; i--)\<close>. The first
  numeric argument is \<open>i + 1\<close>, so that \<open>0\<close> is the exit \<open>i < 0\<close>.
\<close>

fun packLoop :: "int \<Rightarrow> Ripple list \<Rightarrow> nat \<Rightarrow> nat \<Rightarrow> Uniforms \<Rightarrow> Uniforms" where
  "packLoop now rs 0 activeCount u = u"
| "packLoop now rs (Suc i) activeCount u =
     (if activeCount < 10 then
        (let ripple = rs ! i in
         if now - time ripple < RIPPLE_maxRipples * 1000 then
           packLoop now rs i (activeCount + 1)
             (u\<lparr>uRipples := (uRipples u)[activeCount := ripple_position ripple],
                uRippleStrengths := (uRippleStrengths u)[activeCount := strength ripple],
                uRippleTimes := (uRippleTimes u)[activeCount := real_of_int (time ripple) / 1000]\<rparr>)
         else packLoop now rs i activeCount u)
      else u)"

text \<open>
  One frame: \<open>elapsedTime\<close> is \<open>state.clock.elapsedTime\<close>, \<open>now\<close> is \<open>Date.now()\<close>,
  \<open>rs\<close> the store's ripples as the component last read them.
\<close>

definition useFrame :: "real \<Rightarrow> int \<Rightarrow> Ripple list \<Rightarrow> Uniforms \<Rightarrow> Uniforms" where
  "useFrame elapsedTime now rs u =
     packLoop now rs (length rs) 0 (resetArrays (u\<lparr>uTime := elapsedTime\<rparr>))"

text \<open>The uniforms after a sequence of frames, starting from the freshly built material.\<close>

fun frames :: "(real \<times> int \<times> Ripple list) list \<Rightarrow> Uniforms" where
  "frames [] = initialUniforms"
| "frames (f # fs) = (case f of (elapsedTime, now, rs) \<Rightarrow> useFrame elapsedTime now rs (frames fs))"

text \<open>
  What a frame is expected to put in the slots, in closed form: the ripples that pass
  the loop's age test, the most recently added first, ten at most.
\<close>

definition activeRipples :: "int \<Rightarrow> Ripple list \<Rightarrow> Ripple list" where
  "activeRipples now rs =
     take 10 (filter (\<lambda>r. now - time r < RIPPLE_maxRipples * 1000) (rev rs))"

section \<open>Ripple displacement (mercuryVertex.glsl)\<close>

definition distance2 :: "real \<times> real \<Rightarrow> real \<times> real \<Rightarrow> real" where
  "distance2 p q = sqrt ((fst p - fst q) * (fst p - fst q) + (snd p - snd q) * (snd p - snd q))"

definition calculateRipple :: "real \<times> real \<Rightarrow> real \<times> real \<Rightarrow> real \<Rightarrow> real \<Rightarrow> real" where
  "calculateRipple pos center str t =
     (let dist = distance2 pos center;
          waveSpeed = 3;
          waveFrequency = 8;
          decay = 3 / 10;
          wave = sin (dist * waveFrequency - t * waveSpeed);
          envelope = exp (- dist * decay) * exp (- t * (1 / 2))
      in wave * envelope * str)"

text \<open>The body of the shader's ripple loop for slot \<open>i\<close>, and the loop.\<close>

definition rippleSlot :: "real \<times> real \<Rightarrow> Uniforms \<Rightarrow> nat \<Rightarrow> real \<Rightarrow> real" where
  "rippleSlot pos u i rippleSum =
     (if uRippleStrengths u ! i > 1 / 100 then
        (let rippleAge = uTime u - uRippleTimes u ! i in
         if rippleAge > 0 \<and> rippleAge < 5 then
           rippleSum + calculateRipple pos (uRipples u ! i) (uRippleStrengths u ! i) rippleAge
         else rippleSum)
      else rippleSum)"

definition rippleSum :: "real \<times> real \<Rightarrow> Uniforms \<Rightarrow> real" where
  "rippleSum pos u = fold (rippleSlot pos u) [0..<10] 0"

text \<open>
  \<open>getDisplacedPosition\<close>: the vertex is lifted by the ambient noise plus the ripple
  sum. The Perlin noise \<open>cnoise\<close> is a parameter here; nothing below unfolds it.
\<close>

definition getDisplacedPosition ::
  "(real \<times> real \<times> real \<Rightarrow> real) \<Rightarrow> Uniforms \<Rightarrow> real \<times> real \<times> real \<Rightarrow> real \<times> real \<times> real" where
  "getDisplacedPosition cnoise u pos =
     (case pos of (x, y, z) \<Rightarrow>
        (let noise1 = cnoise (x * (3 / 10), z * (3 / 10), uTime u * (15 / 100)) * (15 / 100);
             noise2 = cnoise (x * (6 / 10) + 100, z * (6 / 10) + 100, uTime u * (2 / 10)) * (8 / 100);
             noise3 = cnoise (x * (12 / 10) + 200, z * (12 / 10) + 200, uTime u * (25 / 100)) * (4 / 100);
             ambientWave = noise1 + noise2 + noise3
         in (x, y + (ambientWave + rippleSum (x, z) u), z)))"

section \<open>The particle system (class \<open>ParticlePhysicsSystem\<close>)\<close>

text \<open>
  The class keeps its particles in typed arrays that it shares by reference with
  its callers (\<open>getPositions\<close>, \<open>setTargetPositions\<close>), so the arrays live in an
  explicit store: an address is an index into the list of all arrays allocated so
  far. A \<open>Float32Array\<close> never changes its length, and a write beyond its end is
  dropped, which is what a list update does.
\<close>

type_synonym addr = nat
type_synonym heap = "real list list"

definition alloc :: "nat \<Rightarrow> heap \<Rightarrow> addr \<times> heap" where
  "alloc n h = (length h, h @ [replicate n 0])"

definition load :: "heap \<Rightarrow> addr \<Rightarrow> nat \<Rightarrow> real" where
  "load h a i = h ! a ! i"

definition store :: "addr \<Rightarrow> nat \<Rightarrow> real \<Rightarrow> heap \<Rightarrow> heap" where
  "store a i v h = h[a := (h ! a)[i := v]]"

record Vector3 =
  vec_x :: real
  vec_y :: real
  vec_z :: real

record Color =
  col_r :: real
  col_g :: real
  col_b :: real

record ParticleConfig =
  pc_count :: nat
  pc_spread :: real
  pc_size :: real
  pc_color :: Color
  pc_magneticStrength :: real
  pc_dragCoefficient :: real
  pc_gravity :: Vector3

datatype FieldType = attract | repel | vortex

record ForceField =
  ff_position :: Vector3
  ff_strength :: real
  ff_radius :: real
  ff_type :: FieldType

type_synonym gridKey = "int \<times> int \<times> int"

record ParticlePhysicsSystem =
  positions :: addr
  velocities :: addr
  colors :: addr
  sizes :: addr
  lifetimes :: addr
  targetPositions :: "addr option"
  count :: nat
  forceFields :: "ForceField list"
  config :: ParticleConfig
  gridSize :: real
  grid :: "gridKey \<rightharpoonup> nat list"

text \<open>
  \<open>Math.random()\<close> is a stream \<open>rnd\<close> of numbers read through a cursor; every call
  takes the next one. One pass of the loop of \<open>initializeParticles\<close> makes ten calls.
\<close>

definition initParticle ::
  "(nat \<Rightarrow> real) \<Rightarrow> ParticlePhysicsSystem \<Rightarrow> nat \<Rightarrow> heap \<times> nat \<Rightarrow> heap \<times> nat" where
  "initParticle rnd sys i hk =
     (case hk of (h, k) \<Rightarrow>
        (let i3 = i * 3;
             theta = rnd k * pi * 2;
             phi = arccos (2 * rnd (k + 1) - 1);
             radius = pc_spread (config sys) * root 3 (rnd (k + 2));
             h = store (positions sys) i3 (radius * sin phi * cos theta) h;
             h = store (positions sys) (i3 + 1) (radius * sin phi * sin theta) h;
             h = store (positions sys) (i3 + 2) (radius * cos phi) h;
             h = store (velocities sys) i3 ((rnd (k + 3) - 1 / 2) * (1 / 10)) h;
             h = store (velocities sys) (i3 + 1) ((rnd (k + 4) - 1 / 2) * (1 / 10)) h;
             h = store (velocities sys) (i3 + 2) ((rnd (k + 5) - 1 / 2) * (1 / 10)) h;
             colorVariation = 1 / 10;
             h = store (colors sys) i3
                   (col_r (pc_color (config sys)) + (rnd (k + 6) - 1 / 2) * colorVariation) h;
             h = store (colors sys) (i3 + 1)
                   (col_g (pc_color (config sys)) + (rnd (k + 7) - 1 / 2) * colorVariation) h;
             h = store (colors sys) (i3 + 2)
                   (col_b (pc_color (config sys)) + (rnd (k + 8) - 1 / 2) * colorVariation) h;
             h = store (sizes sys) i (pc_size (config sys) * (1 / 2 + rnd (k + 9) * (1 / 2))) h;
             h = store (lifetimes sys) i 1 h
         in (h, k + 10)))"

definition initializeParticles ::
  "(nat \<Rightarrow> real) \<Rightarrow> ParticlePhysicsSystem \<Rightarrow> heap \<times> nat \<Rightarrow> heap \<times> nat" where
  "initializeParticles rnd sys hk = fold (initParticle rnd sys) [0..<count sys] hk"

text \<open>The constructor allocates the five arrays, in the order of the source, and fills them.\<close>

definition ParticlePhysicsSystem_new ::
  "(nat \<Rightarrow> real) \<Rightarrow> ParticleConfig \<Rightarrow> heap \<times> nat \<Rightarrow> (heap \<times> nat) \<times> ParticlePhysicsSystem" where
  "ParticlePhysicsSystem_new rnd cfg hk =
     (case hk of (h, k) \<Rightarrow>
        (let n = pc_count cfg;
             (p, h) = alloc (n * 3) h;
             (v, h) = alloc (n * 3) h;
             (c, h) = alloc (n * 3) h;
             (s, h) = alloc n h;
             (l, h) = alloc n h;
             sys = \<lparr>positions = p, velocities = v, colors = c, sizes = s, lifetimes = l,
                    targetPositions = None, count = n, forceFields = [], config = cfg,
                    gridSize = 1, grid = Map.empty\<rparr>
         in (initializeParticles rnd sys (h, k), sys)))"

text \<open>
  \<open>setTargetPositions(targets)\<close>: the argument is a reference to the caller's array.
  The first component of the result is what went to \<open>console.warn\<close>.
\<close>

definition setTargetPositions ::
  "addr \<Rightarrow> heap \<Rightarrow> ParticlePhysicsSystem \<Rightarrow> string list \<times> ParticlePhysicsSystem" where
  "setTargetPositions targets h sys =
     (if length (h ! targets) \<noteq> count sys * 3
      then ([''Target positions count mismatch''], sys)
      else ([], sys\<lparr>targetPositions := Some targets\<rparr>))"

definition addForceField :: "ForceField \<Rightarrow> ParticlePhysicsSystem \<Rightarrow> ParticlePhysicsSystem" where
  "addForceField field sys = sys\<lparr>forceFields := forceFields sys @ [field]\<rparr>"

definition clearForceFields :: "ParticlePhysicsSystem \<Rightarrow> ParticlePhysicsSystem" where
  "clearForceFields sys = sys\<lparr>forceFields := []\<rparr>"

text \<open>
  The body of \<open>for (const field of this.forceFields)\<close>: the force \<open>(fx, fy, fz)\<close>
  accumulated so far for the particle at \<open>(px, py, pz)\<close>, after one more field.
\<close>

definition applyField ::
  "real \<times> real \<times> real \<Rightarrow> ForceField \<Rightarrow> real \<times> real \<times> real \<Rightarrow> real \<times> real \<times> real" where
  "applyField p field f =
     (case p of (px, py, pz) \<Rightarrow> case f of (fx, fy, fz) \<Rightarrow>
        (let dx = vec_x (ff_position field) - px;
             dy = vec_y (ff_position field) - py;
             dz = vec_z (ff_position field) - pz;
             distSq = dx * dx + dy * dy + dz * dz + 1 / 1000;
             dist = sqrt distSq
         in if dist < ff_radius field then
              (let str = ff_strength field * (1 - dist / ff_radius field) in
               case ff_type field of
                 attract \<Rightarrow> (fx + (dx / dist) * str, fy + (dy / dist) * str, fz + (dz / dist) * str)
               | repel \<Rightarrow> (fx - (dx / dist) * str, fy - (dy / dist) * str, fz - (dz / dist) * str)
               | vortex \<Rightarrow>
                   (let perpX = - dy; perpY = dx
                    in (fx + perpX * str, fy + perpY * str, fz)))
            else (fx, fy, fz)))"

text \<open>The magnetic pull towards the particle's target, when targets are set.\<close>

definition applyMagnetic ::
  "heap \<Rightarrow> ParticlePhysicsSystem \<Rightarrow> nat \<Rightarrow> real \<times> real \<times> real \<Rightarrow> real \<times> real \<times> real
     \<Rightarrow> real \<times> real \<times> real" where
  "applyMagnetic h sys i3 p f =
     (case p of (px, py, pz) \<Rightarrow> case f of (fx, fy, fz) \<Rightarrow>
        (case targetPositions sys of
           Some t \<Rightarrow>
             if pc_magneticStrength (config sys) > 0 then
               (let tx = load h t i3; ty = load h t (i3 + 1); tz = load h t (i3 + 2);
                    dx = tx - px; dy = ty - py; dz = tz - pz;
                    distSq = dx * dx + dy * dy + dz * dz + 1 / 1000;
                    dist = sqrt distSq;
                    attractionForce = pc_magneticStrength (config sys)
                in (fx + (dx / dist) * attractionForce,
                    fy + (dy / dist) * attractionForce,
                    fz + (dz / dist) * attractionForce))
             else (fx, fy, fz)
         | None \<Rightarrow> (fx, fy, fz)))"

definition getGridKey :: "ParticlePhysicsSystem \<Rightarrow> real \<Rightarrow> real \<Rightarrow> real \<Rightarrow> gridKey" where
  "getGridKey sys x y z =
     (\<lfloor>x / gridSize sys\<rfloor>, \<lfloor>y / gridSize sys\<rfloor>, \<lfloor>z / gridSize sys\<rfloor>)"

text \<open>
  One pass of the particle loop of \<open>update\<close>. The arrays and the grid change; the
  other fields of the system are only read.
\<close>

definition updateParticle ::
  "real \<Rightarrow> nat \<Rightarrow> heap \<times> ParticlePhysicsSystem \<Rightarrow> heap \<times> ParticlePhysicsSystem" where
  "updateParticle dt i hs =
     (case hs of (h, sys) \<Rightarrow>
        (let i3 = i * 3;
             p = (load h (positions sys) i3, load h (positions sys) (i3 + 1),
                  load h (positions sys) (i3 + 2));
             f = (0 + vec_x (pc_gravity (config sys)), 0 + vec_y (pc_gravity (config sys)),
                  0 + vec_z (pc_gravity (config sys)));
             f = applyMagnetic h sys i3 p f;
             f = fold (applyField p) (forceFields sys) f;
             vx = load h (velocities sys) i3;
             vy = load h (velocities sys) (i3 + 1);
             vz = load h (velocities sys) (i3 + 2);
             fx = fst f - vx * pc_dragCoefficient (config sys);
             fy = fst (snd f) - vy * pc_dragCoefficient (config sys);
             fz = snd (snd f) - vz * pc_dragCoefficient (config sys);
             h = store (velocities sys) i3 (load h (velocities sys) i3 + fx * dt) h;
             h = store (velocities sys) (i3 + 1) (load h (velocities sys) (i3 + 1) + fy * dt) h;
             h = store (velocities sys) (i3 + 2) (load h (velocities sys) (i3 + 2) + fz * dt) h;
             h = store (positions sys) i3
                   (load h (positions sys) i3 + load h (velocities sys) i3 * dt) h;
             h = store (positions sys) (i3 + 1)
                   (load h (positions sys) (i3 + 1) + load h (velocities sys) (i3 + 1) * dt) h;
             h = store (positions sys) (i3 + 2)
                   (load h (positions sys) (i3 + 2) + load h (velocities sys) (i3 + 2) * dt) h;
             gridKey = getGridKey sys (load h (positions sys) i3)
                         (load h (positions sys) (i3 + 1)) (load h (positions sys) (i3 + 2));
             g = (case grid sys gridKey of None \<Rightarrow> (grid sys)(gridKey \<mapsto> []) | Some _ \<Rightarrow> grid sys);
             g = g(gridKey \<mapsto> the (g gridKey) @ [i])
         in (h, sys\<lparr>grid := g\<rparr>)))"

definition ParticlePhysicsSystem_update ::
  "real \<Rightarrow> heap \<times> ParticlePhysicsSystem \<Rightarrow> heap \<times> ParticlePhysicsSystem" where
  "ParticlePhysicsSystem_update deltaTime hs =
     (case hs of (h, sys) \<Rightarrow>
        (let dt = min deltaTime (33 / 1000)
         in fold (updateParticle dt) [0..<count sys] (h, sys\<lparr>grid := Map.empty\<rparr>)))"

text \<open>\<open>reset()\<close>: the arrays are filled again where they are, targets and fields dropped.\<close>

definition ParticlePhysicsSystem_reset ::
  "(nat \<Rightarrow> real) \<Rightarrow> (heap \<times> nat) \<times> ParticlePhysicsSystem
     \<Rightarrow> (heap \<times> nat) \<times> ParticlePhysicsSystem" where
  "ParticlePhysicsSystem_reset rnd hs =
     (case hs of (hk, sys) \<Rightarrow>
        (initializeParticles rnd sys hk, sys\<lparr>targetPositions := None, forceFields := []\<rparr>))"

text \<open>
  What the constructor establishes and every method keeps: the five arrays are five
  different live addresses, with three numbers per particle for positions,
  velocities and colours and one for sizes and lifetimes.
\<close>

definition wellFormed :: "heap \<Rightarrow> ParticlePhysicsSystem \<Rightarrow> bool" where
  "wellFormed h sys \<longleftrightarrow>
     distinct [positions sys, velocities sys, colors sys, sizes sys, lifetimes sys]
     \<and> positions sys < length h \<and> velocities sys < length h \<and> colors sys < length h
     \<and> sizes sys < length h \<and> lifetimes sys < length h
     \<and> length (h ! positions sys) = count sys * 3
     \<and> length (h ! velocities sys) = count sys * 3
     \<and> length (h ! colors sys) = count sys * 3
     \<and> length (h ! sizes sys) = count sys
     \<and> length (h ! lifetimes sys) = count sys"

text \<open>
  The numbers one pass of \<open>initializeParticles\<close> writes for a particle whose random
  draws start at \<open>k\<close>, in closed form: position, velocity, colour and size.
\<close>

definition initialPosition :: "(nat \<Rightarrow> real) \<Rightarrow> ParticleConfig \<Rightarrow> nat \<Rightarrow> real list" where
  "initialPosition rnd cfg k =
     (let theta = rnd k * pi * 2;
          phi = arccos (2 * rnd (k + 1) - 1);
          radius = pc_spread cfg * root 3 (rnd (k + 2))
      in [radius * sin phi * cos theta, radius * sin phi * sin theta, radius * cos phi])"

definition initialVelocity :: "(nat \<Rightarrow> real) \<Rightarrow> nat \<Rightarrow> real list" where
  "initialVelocity rnd k =
     [(rnd (k + 3) - 1 / 2) * (1 / 10), (rnd (k + 4) - 1 / 2) * (1 / 10),
      (rnd (k + 5) - 1 / 2) * (1 / 10)]"

definition initialColor :: "(nat \<Rightarrow> real) \<Rightarrow> ParticleConfig \<Rightarrow> nat \<Rightarrow> real list" where
  "initialColor rnd cfg k =
     [col_r (pc_color cfg) + (rnd (k + 6) - 1 / 2) * (1 / 10),
      col_g (pc_color cfg) + (rnd (k + 7) - 1 / 2) * (1 / 10),
      col_b (pc_color cfg) + (rnd (k + 8) - 1 / 2) * (1 / 10)]"

definition initialSize :: "(nat \<Rightarrow> real) \<Rightarrow> ParticleConfig \<Rightarrow> nat \<Rightarrow> real" where
  "initialSize rnd cfg k = pc_size cfg * (1 / 2 + rnd (k + 9) * (1 / 2))"

text \<open>A small system with a target array at address 5, a stray array at 6, and a vortex field.\<close>

definition exampleSystem :: ParticlePhysicsSystem where
  "exampleSystem =
     \<lparr>positions = 0, velocities = 1, colors = 2, sizes = 3, lifetimes = 4,
      targetPositions = Some 5, count = 1,
      forceFields = [\<lparr>ff_position = \<lparr>vec_x = 1, vec_y = 0, vec_z = 0\<rparr>, ff_strength = 2,
                      ff_radius = 3, ff_type = repel\<rparr>],
      config = \<lparr>pc_count = 1, pc_spread = 2, pc_size = 1, pc_color = \<lparr>col_r = 1, col_g = 1, col_b = 1\<rparr>,
                pc_magneticStrength = 1, pc_dragCoefficient = 1 / 10,
                pc_gravity = \<lparr>vec_x = 0, vec_y = 0, vec_z = 0\<rparr>\<rparr>,
      gridSize = 1, grid = Map.empty\<rparr>"

definition exampleHeap :: heap where
  "exampleHeap = [[1, 2, 3], [0, 0, 0], [1, 1, 1], [1], [1], [7, 8, 9], [4, 5]]"

definition exampleVortex :: ForceField where
  "exampleVortex =
     \<lparr>ff_position = \<lparr>vec_x = 24999 / 10000, vec_y = 0, vec_z = 0\<rparr>,
      ff_strength = 1, ff_radius = 5, ff_type = vortex\<rparr>"

section \<open>Springs: the integration step, construction, independent axes\<close>

text \<open>
  Claim C1. For every spring and every \<open>deltaTime\<close> in milliseconds, \<open>update\<close> steps by
  \<open>dt = min (deltaTime / 1000) 0.064\<close> seconds: the acceleration is the sum of the
  spring force \<open>- tension * (position - target)\<close> and the damping force
  \<open>- friction * velocity\<close>, divided by the mass; the velocity is advanced first, the
  position is then advanced with the new velocity, and the new position is returned.
  Target, tension, friction and mass stay as they were.
\<close>

theorem Spring_update_semi_implicit_euler:
  "let dt = min (deltaTime / 1000) (64 / 1000);
       springForce = - tension s * (position s - target s);
       dampingForce = - friction s * velocity s;
       acceleration = (springForce + dampingForce) / mass s;
       velocity' = velocity s + acceleration * dt;
       position' = position s + velocity' * dt
   in Spring_update deltaTime s = (s\<lparr>velocity := velocity', position := position'\<rparr>, position')
      \<and> dt \<le> 64 / 1000"
  by (simp add: Spring_update_def Let_def)

text \<open>
  Claim C4 says that a spring of zero mass is rejected when it is constructed. The
  constructor has no check: it accepts the configuration and the spring holds the
  zero mass.
\<close>

theorem Spring_new_zero_mass_accepted:
  "mass (Spring_new 0 \<lparr>cfg_tension = 400, cfg_friction = 30, cfg_mass = 0\<rparr>) = 0"
  by (simp add: Spring_new_def)

text \<open>
  Claim C4, as the code has it: construction never fails and validates nothing; for
  every initial value and every configuration the new spring rests at the initial
  value and holds the given tension, friction and mass, a zero mass included.
\<close>

theorem Spring_new_stores_config:
  "Spring_new initialValue cfg =
     \<lparr>position = initialValue, velocity = 0, target = initialValue,
      tension = cfg_tension cfg, friction = cfg_friction cfg, mass = cfg_mass cfg\<rparr>
   \<and> mass (Spring_new initialValue (cfg\<lparr>cfg_mass := 0\<rparr>)) = 0"
  by (simp add: Spring_new_def)

text \<open>A spring that sits on its target without moving stays as it is.\<close>

lemma Spring_update_at_rest:
  assumes "position s = target s" and "velocity s = 0" and "mass s \<noteq> 0"
  shows "fst (Spring_update d s) = s"
  using assms by (simp add: Spring_update_def Let_def)

lemma Spring3D_update_axes:
  "spring0 (fst (Spring3D_update d v)) = fst (Spring_update d (spring0 v))"
  "spring1 (fst (Spring3D_update d v)) = fst (Spring_update d (spring1 v))"
  "spring2 (fst (Spring3D_update d v)) = fst (Spring_update d (spring2 v))"
  by (simp_all add: Spring3D_update_def Let_def split: prod.splits)

lemma Spring3D_updates_rest1:
  assumes "position (spring1 v) = target (spring1 v)" and "velocity (spring1 v) = 0"
    and "mass (spring1 v) \<noteq> 0"
  shows "spring1 (Spring3D_updates ds v) = spring1 v"
  using assms
proof (induction ds arbitrary: v)
  case Nil
  then show ?case by simp
next
  case (Cons d ds)
  have "spring1 (fst (Spring3D_update d v)) = spring1 v"
    using Cons.prems by (simp add: Spring3D_update_axes Spring_update_at_rest)
  with Cons show ?case by simp
qed

lemma Spring3D_updates_rest2:
  assumes "position (spring2 v) = target (spring2 v)" and "velocity (spring2 v) = 0"
    and "mass (spring2 v) \<noteq> 0"
  shows "spring2 (Spring3D_updates ds v) = spring2 v"
  using assms
proof (induction ds arbitrary: v)
  case Nil
  then show ?case by simp
next
  case (Cons d ds)
  have "spring2 (fst (Spring3D_update d v)) = spring2 v"
    using Cons.prems by (simp add: Spring3D_update_axes Spring_update_at_rest)
  with Cons show ?case by simp
qed

text \<open>Whatever spring sits on the first axis, the second axis evolves the same way.\<close>

lemma Spring3D_axis1_independent:
  "spring1 (Spring3D_updates ds (v\<lparr>spring0 := a\<rparr>)) = spring1 (Spring3D_updates ds v)"
proof (induction ds arbitrary: v a)
  case Nil
  show ?case by simp
next
  case (Cons d ds)
  have "fst (Spring3D_update d (v\<lparr>spring0 := a\<rparr>))
          = (fst (Spring3D_update d v))\<lparr>spring0 := fst (Spring_update d a)\<rparr>"
    by (simp add: Spring3D_update_def Let_def split: prod.splits)
  then show ?case using Cons.IH by simp
qed

text \<open>
  Claim C8. A vector spring is built from any initial value, only the X component of
  its target is changed, and \<open>update\<close> is called any number of times with any delta
  times: the Y and Z axes keep their positions and their zero velocities. (The mass
  is taken non-zero, so that the quotient in \<open>update\<close> is a number.)
\<close>

theorem Spring3D_x_target_leaves_y_z:
  assumes "cfg_mass cfg \<noteq> 0"
  shows "let v = Spring3D_updates dts
                   (Spring3D_setTarget (tx, y, z) (Spring3D_new (x, y, z) cfg))
         in position (spring1 v) = y \<and> velocity (spring1 v) = 0
          \<and> position (spring2 v) = z \<and> velocity (spring2 v) = 0"
proof -
  let ?v0 = "Spring3D_setTarget (tx, y, z) (Spring3D_new (x, y, z) cfg)"
  have 1: "spring1 ?v0 = Spring_new y cfg" and 2: "spring2 ?v0 = Spring_new z cfg"
    by (simp_all add: Spring3D_setTarget_def Spring3D_new_def Spring_setTarget_def Spring_new_def)
  have "spring1 (Spring3D_updates dts ?v0) = Spring_new y cfg"
    using Spring3D_updates_rest1 [of ?v0 dts] assms by (simp add: 1) (simp add: Spring_new_def)
  moreover have "spring2 (Spring3D_updates dts ?v0) = Spring_new z cfg"
    using Spring3D_updates_rest2 [of ?v0 dts] assms by (simp add: 2) (simp add: Spring_new_def)
  ultimately show ?thesis by (simp add: Let_def Spring_new_def)
qed

theorem Spring3D_x_target_leaves_y_z_witness:
  "cfg_mass Spring_default_config \<noteq> 0 \<and>
   (let v = Spring3D_updates [16, 16, 500]
              (Spring3D_setTarget (10, 2, 3) (Spring3D_new (1, 2, 3) Spring_default_config))
    in position (spring1 v) = 2 \<and> velocity (spring1 v) = 0
     \<and> position (spring2 v) = 3 \<and> velocity (spring2 v) = 0)"
  using Spring3D_x_target_leaves_y_z [of Spring_default_config "[16, 16, 500]" 10 2 3 1]
  by (simp add: Spring_default_config_def)

section \<open>The ripple store: capacity and order\<close>

lemma ripples_addRipple:
  "ripples (addRipple newId now pos str st) =
     slice_last 10 (ripples st @ [\<lparr>ripple_id = newId, ripple_position = pos, strength = str, time = now\<rparr>])"
  by (simp add: addRipple_def Let_def)

lemma ripples_clearExpiredRipples:
  "ripples (clearExpiredRipples now st) = filter (\<lambda>r. now - time r < 5000) (ripples st)"
  by (simp add: clearExpiredRipples_def)

lemma length_slice_last: "length (slice_last n xs) \<le> n"
  by (simp add: slice_last_def)

lemma slice_last_id: "length xs \<le> n \<Longrightarrow> slice_last n xs = xs"
  by (simp add: slice_last_def)

lemma slice_last_append_slice_last:
  "slice_last n (slice_last n xs @ ys) = slice_last n (xs @ ys)"
proof -
  have "length xs + length ys - (length xs - n + n) + (length xs - n) = length xs + length ys - n"
    by arith
  then show ?thesis by (simp add: slice_last_def)
qed

lemma length_ripples_step:
  assumes "length (ripples st) \<le> 10"
  shows "length (ripples (step a st)) \<le> 10"
proof (cases a)
  case (AddRipple newId now pos str)
  then show ?thesis by (simp add: ripples_addRipple length_slice_last)
next
  case (ClearExpired now)
  have "length (filter (\<lambda>r. now - time r < 5000) (ripples st)) \<le> length (ripples st)"
    by (rule length_filter_le)
  with assms have "length (filter (\<lambda>r. now - time r < 5000) (ripples st)) \<le> 10"
    by linarith
  then show ?thesis using ClearExpired by (simp add: ripples_clearExpiredRipples)
qed

lemma length_ripples_fold_step:
  "length (ripples st) \<le> 10 \<Longrightarrow> length (ripples (fold step acts st)) \<le> 10"
  by (induction acts arbitrary: st) (simp_all add: length_ripples_step)

lemma fold_step_adds:
  assumes "list_all isAdd acts"
  shows "ripples (fold step acts st) = slice_last 10 (slice_last 10 (ripples st) @ created acts)
         \<or> (acts = [] \<and> ripples (fold step acts st) = ripples st)"
  using assms
proof (induction acts arbitrary: st)
  case Nil
  then show ?case by simp
next
  case (Cons a acts)
  from Cons.prems obtain newId now pos str where a: "a = AddRipple newId now pos str"
    by (cases a) simp_all
  let ?r = "\<lparr>ripple_id = newId, ripple_position = pos, strength = str, time = now\<rparr>"
  let ?st = "addRipple newId now pos str st"
  have st: "ripples ?st = slice_last 10 (ripples st @ [?r])"
    by (rule ripples_addRipple)
  have len: "length (ripples ?st) \<le> 10"
    by (simp add: st length_slice_last)
  from Cons.prems have "list_all isAdd acts" by simp
  from Cons.IH [OF this, of ?st]
  have "ripples (fold step acts ?st) = slice_last 10 (ripples ?st @ created acts)"
    using len by (auto simp: slice_last_id)
  also have "\<dots> = slice_last 10 ((ripples st @ [?r]) @ created acts)"
    unfolding st by (rule slice_last_append_slice_last)
  also have "\<dots> = slice_last 10 (slice_last 10 (ripples st) @ created (a # acts))"
    by (simp add: a slice_last_append_slice_last)
  finally show ?case by (simp add: a)
qed

lemma fold_step_adds_bounded:
  assumes "list_all isAdd acts" and "length (ripples st) \<le> 10"
  shows "ripples (fold step acts st) = slice_last 10 (ripples st @ created acts)"
  using fold_step_adds [OF assms(1), of st] assms(2) by (auto simp: slice_last_id)

lemma length_created: "list_all isAdd acts \<Longrightarrow> length (created acts) = length acts"
  by (induction acts rule: created.induct) simp_all

lemma slice_last_append_long:
  "n \<le> length ys \<Longrightarrow> slice_last n (xs @ ys) = slice_last n ys"
  by (simp add: slice_last_def)

text \<open>
  Claim C3. After any fifteen calls of \<open>addRipple\<close>, from any state of the store with at
  most ten ripples, the store holds exactly the ten ripples added last, in the order
  of the calls; it never held more than ten on the way; the five added first are not
  in it (when the fifteen ripples are pairwise different), and neither the uniform
  packing nor the ripple sum computed from the store sees anything but the last ten.
\<close>

theorem fifteen_addRipple_keep_last_ten:
  assumes "length acts = 15" and "list_all isAdd acts" and "length (ripples st) \<le> 10"
  shows "ripples (fold step acts st) = drop 5 (created acts)
       \<and> (\<forall>n\<le>15. length (ripples (fold step (take n acts) st)) \<le> 10)
       \<and> (distinct (created acts) \<longrightarrow>
            (\<forall>r\<in>set (take 5 (created acts)). r \<notin> set (ripples (fold step acts st))))
       \<and> useFrame elapsedTime now (ripples (fold step acts st)) u
            = useFrame elapsedTime now (drop 5 (created acts)) u
       \<and> rippleSum p (useFrame elapsedTime now (ripples (fold step acts st)) u)
            = rippleSum p (useFrame elapsedTime now (drop 5 (created acts)) u)"
proof -
  have len: "length (created acts) = 15"
    using assms(1,2) by (simp add: length_created)
  have "ripples (fold step acts st) = slice_last 10 (ripples st @ created acts)"
    using assms(2,3) by (rule fold_step_adds_bounded)
  also have "\<dots> = slice_last 10 (created acts)"
    using len by (simp add: slice_last_append_long)
  also have "\<dots> = drop 5 (created acts)"
    using len by (simp add: slice_last_def)
  finally have final: "ripples (fold step acts st) = drop 5 (created acts)" .
  have bound: "\<forall>n\<le>15. length (ripples (fold step (take n acts) st)) \<le> 10"
    using assms(3) by (simp add: length_ripples_fold_step)
  have gone: "\<forall>r\<in>set (take 5 (created acts)). r \<notin> set (drop 5 (created acts))"
    if "distinct (created acts)"
  proof -
    from that have "distinct (take 5 (created acts) @ drop 5 (created acts))" by simp
    then show ?thesis unfolding distinct_append by blast
  qed
  show ?thesis using final bound gone by simp
qed

theorem fifteen_addRipple_keep_last_ten_witness:
  "(let acts = map (\<lambda>n. AddRipple ''ripple'' (int n) (real n, 0) 1) [0..<15]
    in length acts = 15 \<and> list_all isAdd acts \<and> length (ripples initialState) \<le> 10
     \<and> distinct (created acts)
     \<and> ripples (fold step acts initialState) = drop 5 (created acts)
     \<and> length (ripples (fold step (take 12 acts) initialState)) \<le> 10
     \<and> (\<forall>r\<in>set (take 5 (created acts)). r \<notin> set (ripples (fold step acts initialState))))"
proof -
  let ?acts = "map (\<lambda>n. AddRipple ''ripple'' (int n) (real n, 0) 1) [0..<15]"
  have 1: "length ?acts = 15" by simp
  have 2: "list_all isAdd ?acts" by (simp add: list_all_iff)
  have 3: "length (ripples initialState) \<le> 10" by (simp add: initialState_def)
  have c: "created (map (\<lambda>n. AddRipple ''ripple'' (int n) (real n, 0) 1) ns)
           = map (\<lambda>n. \<lparr>ripple_id = ''ripple'', ripple_position = (real n, 0), strength = 1, time = int n\<rparr>) ns"
    for ns by (induction ns) simp_all
  have 4: "distinct (created ?acts)"
    unfolding c by (simp add: distinct_map inj_on_def)
  from fifteen_addRipple_keep_last_ten [OF 1 2 3] 1 2 3 4
  show ?thesis unfolding Let_def by fastforce
qed

lemma subseq_slice_last: "subseq (slice_last n xs) xs"
  unfolding slice_last_def by (rule suffix_imp_subseq) (rule suffix_drop)

lemma subseq_fold_step:
  "subseq (ripples (fold step acts st)) (ripples st @ created acts)"
proof (induction acts arbitrary: st)
  case Nil
  show ?case by simp
next
  case (Cons a acts)
  show ?case
  proof (cases a)
    case (AddRipple newId now pos str)
    let ?r = "\<lparr>ripple_id = newId, ripple_position = pos, strength = str, time = now\<rparr>"
    have "subseq (ripples (step a st)) (ripples st @ [?r])"
      by (simp add: AddRipple ripples_addRipple subseq_slice_last)
    then have "subseq (ripples (step a st) @ created acts) ((ripples st @ [?r]) @ created acts)"
      by (intro list_emb_append_mono) simp_all
    with Cons.IH [of "step a st"] have "subseq (ripples (fold step acts (step a st))) ((ripples st @ [?r]) @ created acts)"
      by (rule subseq_order.order_trans)
    then show ?thesis by (simp add: AddRipple)
  next
    case (ClearExpired now)
    have "subseq (ripples (step a st)) (ripples st)"
      by (simp add: ClearExpired ripples_clearExpiredRipples)
    then have "subseq (ripples (step a st) @ created acts) (ripples st @ created acts)"
      by (intro list_emb_append_mono) simp_all
    with Cons.IH [of "step a st"] have "subseq (ripples (fold step acts (step a st))) (ripples st @ created acts)"
      by (rule subseq_order.order_trans)
    then show ?thesis by (simp add: ClearExpired)
  qed
qed

lemma subseq_created_clock: "subseq (map time (created acts)) (map clock acts)"
  by (induction acts rule: created.induct) (simp_all add: list_emb_Cons)

lemma sorted_subseq:
  fixes xs ys :: "int list"
  shows "subseq xs ys \<Longrightarrow> sorted ys \<Longrightarrow> sorted xs"
proof (induction rule: list_emb.induct)
  case (list_emb_Nil ys)
  show ?case by simp
next
  case (list_emb_Cons xs ys y)
  then show ?case by simp
next
  case (list_emb_Cons2 x y xs ys)
  from list_emb_Cons2.hyps(2) have "set xs \<subseteq> set ys"
    by (auto dest: list_emb_set)
  with list_emb_Cons2 show ?case by auto
qed

lemma sorted_run:
  assumes "sorted (map clock acts)"
  shows "sorted (map time (ripples (run acts)))"
proof -
  have "subseq (ripples (run acts)) (created acts)"
    using subseq_fold_step [of acts initialState] by (simp add: run_def initialState_def)
  then have "subseq (map time (ripples (run acts))) (map time (created acts))"
    by (rule subseq_map)
  then have "subseq (map time (ripples (run acts))) (map clock acts)"
    using subseq_created_clock by (rule subseq_order.order_trans)
  then show ?thesis using assms by (rule sorted_subseq)
qed

lemma length_run: "length (ripples (run acts)) \<le> 10"
  unfolding run_def by (rule length_ripples_fold_step) (simp add: initialState_def)

lemma slice_last_snoc:
  assumes "length rs \<le> 10"
  shows "slice_last 10 (rs @ [r]) = (if length rs < 10 then rs @ [r] else tl rs @ [r])"
proof (cases "length rs < 10")
  case True
  then show ?thesis by (simp add: slice_last_def)
next
  case False
  with assms have "length rs = 10" by simp
  then show ?thesis by (simp add: slice_last_def drop_Suc)
qed

text \<open>
  Claim C9. In every state the store reaches, the ripples stand in the order in which
  they were created, oldest first: the list is a subsequence of the creation history,
  and it is sorted by timestamp whenever the clock readings of the history never
  decrease, the head then being an oldest ripple. \<open>addRipple\<close> appends at the tail and,
  at capacity, drops exactly the head; \<open>clearExpiredRipples\<close> keeps the survivors in
  their order.
\<close>

theorem ripples_ordered_by_creation:
  "let rs = ripples (run acts);
       r = \<lparr>ripple_id = newId, ripple_position = pos, strength = str, time = now\<rparr>
   in subseq rs (created acts)
    \<and> (sorted (map clock acts) \<longrightarrow>
         sorted (map time rs) \<and> (\<forall>r'\<in>set rs. time (hd rs) \<le> time r'))
    \<and> ripples (addRipple newId now pos str (run acts))
         = (if length rs < 10 then rs @ [r] else tl rs @ [r])
    \<and> subseq (ripples (clearExpiredRipples now' (run acts))) rs"
proof -
  let ?rs = "ripples (run acts)"
  have 1: "subseq ?rs (created acts)"
    using subseq_fold_step [of acts initialState] by (simp add: run_def initialState_def)
  have 2: "sorted (map time ?rs) \<and> (\<forall>r'\<in>set ?rs. time (hd ?rs) \<le> time r')"
    if "sorted (map clock acts)"
  proof -
    have s: "sorted (map time ?rs)" using that by (rule sorted_run)
    then have "\<forall>r'\<in>set ?rs. time (hd ?rs) \<le> time r'"
      by (cases ?rs) auto
    with s show ?thesis by simp
  qed
  have 3: "ripples (addRipple newId now pos str (run acts))
         = (if length ?rs < 10 then ?rs @ [\<lparr>ripple_id = newId, ripple_position = pos, strength = str, time = now\<rparr>]
            else tl ?rs @ [\<lparr>ripple_id = newId, ripple_position = pos, strength = str, time = now\<rparr>])"
    unfolding ripples_addRipple by (rule slice_last_snoc) (rule length_run)
  have 4: "subseq (ripples (clearExpiredRipples now' (run acts))) ?rs"
    by (simp add: ripples_clearExpiredRipples)
  show ?thesis unfolding Let_def using 1 2 3 4 by blast
qed

theorem ripples_ordered_by_creation_witness:
  "sorted (map clock [AddRipple ''a'' 0 (0, 0) 1, AddRipple ''b'' 100 (1, 1) (1 / 2), ClearExpired 5050])
   \<and> sorted (map time (ripples (run
        [AddRipple ''a'' 0 (0, 0) 1, AddRipple ''b'' 100 (1, 1) (1 / 2), ClearExpired 5050])))"
  using ripples_ordered_by_creation
    [of "[AddRipple ''a'' 0 (0, 0) 1, AddRipple ''b'' 100 (1, 1) (1 / 2), ClearExpired 5050]"]
  by (simp add: Let_def)

section \<open>Ripple uniforms: ten slots, newest first, zero padded\<close>

lemma upt10: "[0..<10] = [0,1,2,3,4,5,6,7,8,9]"
  by (simp add: upt_rec)

lemma resetArrays_eq:
  assumes "length (uRipples u) = 10" "length (uRippleStrengths u) = 10" "length (uRippleTimes u) = 10"
  shows "resetArrays u = u\<lparr>uRipples := replicate 10 (0, 0), uRippleStrengths := replicate 10 0,
                            uRippleTimes := replicate 10 0\<rparr>"
proof -
  obtain a0 a1 a2 a3 a4 a5 a6 a7 a8 a9 where a: "uRipples u = [a0,a1,a2,a3,a4,a5,a6,a7,a8,a9]"
    using assms(1) by (auto simp: length_Suc_conv eval_nat_numeral)
  obtain b0 b1 b2 b3 b4 b5 b6 b7 b8 b9 where b: "uRippleStrengths u = [b0,b1,b2,b3,b4,b5,b6,b7,b8,b9]"
    using assms(2) by (auto simp: length_Suc_conv eval_nat_numeral)
  obtain c0 c1 c2 c3 c4 c5 c6 c7 c8 c9 where c: "uRippleTimes u = [c0,c1,c2,c3,c4,c5,c6,c7,c8,c9]"
    using assms(3) by (auto simp: length_Suc_conv eval_nat_numeral)
  show ?thesis
    by (simp add: resetArrays_def upt10 resetSlot_def a b c eval_nat_numeral)
qed

lemma take_Suc_update: "i < length xs \<Longrightarrow> take (Suc i) (xs[i := v]) = take i xs @ [v]"
  by (simp add: take_Suc_conv_app_nth)

lemma packLoop_slots:
  assumes "n \<le> length rs" and "ac \<le> 10"
    and "length (uRipples u) = 10" and "length (uRippleStrengths u) = 10"
    and "length (uRippleTimes u) = 10"
  shows "let A = take (10 - ac) (filter (\<lambda>r. now - time r < 10000) (rev (take n rs)));
             u' = packLoop now rs n ac u
         in uTime u' = uTime u
          \<and> uRipples u' = take ac (uRipples u) @ map ripple_position A
                @ drop (ac + length A) (uRipples u)
          \<and> uRippleStrengths u' = take ac (uRippleStrengths u) @ map strength A
                @ drop (ac + length A) (uRippleStrengths u)
          \<and> uRippleTimes u' = take ac (uRippleTimes u) @ map (\<lambda>r. real_of_int (time r) / 1000) A
                @ drop (ac + length A) (uRippleTimes u)"
  using assms
proof (induction n arbitrary: ac u)
  case 0
  then show ?case by simp
next
  case (Suc n)
  let ?P = "\<lambda>r. now - time r < 10000"
  from Suc.prems have n: "n < length rs" "n \<le> length rs" by simp_all
  have rev: "rev (take (Suc n) rs) = rs ! n # rev (take n rs)"
    using n by (simp add: take_Suc_conv_app_nth)
  show ?case
  proof (cases "ac < 10")
    case False
    with Suc.prems have "ac = 10" by simp
    with Suc.prems show ?thesis by simp
  next
    case ac: True
    show ?thesis
    proof (cases "?P (rs ! n)")
      case False
      then have "filter ?P (rev (take (Suc n) rs)) = filter ?P (rev (take n rs))"
        by (simp add: rev)
      moreover have "packLoop now rs (Suc n) ac u = packLoop now rs n ac u"
        using ac False by (simp add: RIPPLE_maxRipples_def)
      ultimately show ?thesis
        using Suc.IH [OF n(2) Suc.prems(2-5)] by simp
    next
      case True
      let ?u = "u\<lparr>uRipples := (uRipples u)[ac := ripple_position (rs ! n)],
                   uRippleStrengths := (uRippleStrengths u)[ac := strength (rs ! n)],
                   uRippleTimes := (uRippleTimes u)[ac := real_of_int (time (rs ! n)) / 1000]\<rparr>"
      let ?A = "take (10 - Suc ac) (filter ?P (rev (take n rs)))"
      have A: "take (10 - ac) (filter ?P (rev (take (Suc n) rs))) = rs ! n # ?A"
        using True ac by (simp add: rev take_Cons')
      have step: "packLoop now rs (Suc n) ac u = packLoop now rs n (Suc ac) ?u"
        using ac True by (simp add: RIPPLE_maxRipples_def Let_def)
      have ih: "let A = ?A; u' = packLoop now rs n (Suc ac) ?u
         in uTime u' = uTime ?u
          \<and> uRipples u' = take (Suc ac) (uRipples ?u) @ map ripple_position A
                @ drop (Suc ac + length A) (uRipples ?u)
          \<and> uRippleStrengths u' = take (Suc ac) (uRippleStrengths ?u) @ map strength A
                @ drop (Suc ac + length A) (uRippleStrengths ?u)
          \<and> uRippleTimes u' = take (Suc ac) (uRippleTimes ?u) @ map (\<lambda>r. real_of_int (time r) / 1000) A
                @ drop (Suc ac + length A) (uRippleTimes ?u)"
        using ac Suc.prems(3-5) by (intro Suc.IH n(2)) simp_all
      show ?thesis
        unfolding A step using ih ac Suc.prems(3-5)
        by (simp add: Let_def take_Suc_update)
    qed
  qed
qed

lemma useFrame_slots:
  assumes "length (uRipples u) = 10" and "length (uRippleStrengths u) = 10"
    and "length (uRippleTimes u) = 10"
  shows "useFrame elapsedTime now rs u =
           \<lparr>uTime = elapsedTime,
            uRipples = map ripple_position (activeRipples now rs) @ replicate (10 - length (activeRipples now rs)) (0, 0),
            uRippleStrengths = map strength (activeRipples now rs) @ replicate (10 - length (activeRipples now rs)) 0,
            uRippleTimes = map (\<lambda>r. real_of_int (time r) / 1000) (activeRipples now rs)
                             @ replicate (10 - length (activeRipples now rs)) 0\<rparr>"
proof -
  let ?u = "resetArrays (u\<lparr>uTime := elapsedTime\<rparr>)"
  have r: "?u = \<lparr>uTime = elapsedTime, uRipples = replicate 10 (0, 0),
                  uRippleStrengths = replicate 10 0, uRippleTimes = replicate 10 0\<rparr>"
    using assms by (simp add: resetArrays_eq)
  have "let A = take (10 - 0) (filter (\<lambda>r. now - time r < 10000) (rev (take (length rs) rs)));
             u' = packLoop now rs (length rs) 0 ?u
         in uTime u' = uTime ?u
          \<and> uRipples u' = take 0 (uRipples ?u) @ map ripple_position A
                @ drop (0 + length A) (uRipples ?u)
          \<and> uRippleStrengths u' = take 0 (uRippleStrengths ?u) @ map strength A
                @ drop (0 + length A) (uRippleStrengths ?u)
          \<and> uRippleTimes u' = take 0 (uRippleTimes ?u) @ map (\<lambda>r. real_of_int (time r) / 1000) A
                @ drop (0 + length A) (uRippleTimes ?u)"
    by (rule packLoop_slots) (simp_all add: r)
  then show ?thesis
    by (simp add: useFrame_def Let_def r activeRipples_def RIPPLE_maxRipples_def)
qed

lemma length_activeRipples: "length (activeRipples now rs) \<le> 10"
  by (simp add: activeRipples_def RIPPLE_maxRipples_def)

lemma frames_lengths:
  "length (uRipples (frames fs)) = 10 \<and> length (uRippleStrengths (frames fs)) = 10
   \<and> length (uRippleTimes (frames fs)) = 10"
proof (induction fs)
  case Nil
  show ?case by (simp add: initialUniforms_def)
next
  case (Cons f fs)
  obtain e now rs where f: "f = (e, now, rs)" by (cases f)
  from Cons show ?case
    by (simp add: f useFrame_slots length_activeRipples)
qed

lemma subseq_rev: "subseq xs ys \<Longrightarrow> subseq (rev xs) (rev ys)"
proof (induction rule: list_emb.induct)
  case (list_emb_Nil ys)
  show ?case by simp
next
  case (list_emb_Cons xs ys y)
  then show ?case by (simp add: subseq_rev_drop_many)
next
  case (list_emb_Cons2 x y xs ys)
  then show ?case by (simp add: list_emb_append_mono)
qed

lemma subseq_rev_active: "subseq (rev (activeRipples now rs)) rs"
proof -
  have "subseq (activeRipples now rs)
          (filter (\<lambda>r. now - time r < RIPPLE_maxRipples * 1000) (rev rs))"
    unfolding activeRipples_def by (rule prefix_imp_subseq) (rule take_is_prefix)
  then have "subseq (activeRipples now rs) (rev rs)"
    using subseq_filter_left by (rule subseq_order.order_trans)
  then have "subseq (rev (activeRipples now rs)) (rev (rev rs))" by (rule subseq_rev)
  then show ?thesis by simp
qed

text \<open>
  Claim C6. Whatever frames came before and however many ripples the store holds,
  a frame leaves three arrays of exactly ten slots; the ripples that pass the loop's
  age test fill the first slots, the most recently added first (so with
  non-increasing timestamps when the store is sorted by time); every slot after them
  holds strength 0, position (0, 0) and time 0.
\<close>

theorem useFrame_packs_ten_slots:
  "let u' = useFrame elapsedTime now rs (frames fs); A = activeRipples now rs
   in length (uRipples u') = 10 \<and> length (uRippleStrengths u') = 10
    \<and> length (uRippleTimes u') = 10
    \<and> uRipples u' = map ripple_position A @ replicate (10 - length A) (0, 0)
    \<and> uRippleStrengths u' = map strength A @ replicate (10 - length A) 0
    \<and> uRippleTimes u' = map (\<lambda>r. real_of_int (time r) / 1000) A @ replicate (10 - length A) 0
    \<and> (sorted (map time rs) \<longrightarrow> sorted (rev (map time A)))"
proof -
  have "subseq (map time (rev (activeRipples now rs))) (map time rs)"
    using subseq_rev_active by (rule subseq_map)
  then have "sorted (rev (map time (activeRipples now rs)))" if "sorted (map time rs)"
    using that by (simp add: rev_map sorted_subseq)
  then show ?thesis
    using frames_lengths [of fs] length_activeRipples [of now rs]
    by (simp add: Let_def useFrame_slots)
qed

theorem useFrame_packs_ten_slots_witness:
  "sorted (map time [\<lparr>ripple_id = ''a'', ripple_position = (1, 2), strength = 3 / 10, time = 1000\<rparr>])
   \<and> uRippleStrengths (useFrame 0 1500
        [\<lparr>ripple_id = ''a'', ripple_position = (1, 2), strength = 3 / 10, time = 1000\<rparr>] (frames []))
       = [3 / 10, 0, 0, 0, 0, 0, 0, 0, 0, 0]"
  using useFrame_packs_ten_slots [of 0 1500
     "[\<lparr>ripple_id = ''a'', ripple_position = (1, 2), strength = 3 / 10, time = 1000\<rparr>]" "[]"]
  by (simp add: Let_def activeRipples_def RIPPLE_maxRipples_def eval_nat_numeral)

section \<open>Ripple displacement, end to end\<close>

lemma rippleSum_single:
  assumes "length (uRipples u) = 10" and "length (uRippleStrengths u) = 10"
    and "length (uRippleTimes u) = 10" and "now - t < 10000"
  shows "rippleSum p (useFrame elapsedTime now
           [\<lparr>ripple_id = newId, ripple_position = c, strength = str, time = t\<rparr>] u)
         = (if str > 1 / 100 \<and> elapsedTime - real_of_int t / 1000 > 0
               \<and> elapsedTime - real_of_int t / 1000 < 5
            then calculateRipple p c str (elapsedTime - real_of_int t / 1000) else 0)"
  using assms
  by (simp add: useFrame_slots activeRipples_def RIPPLE_maxRipples_def rippleSum_def upt10 rippleSlot_def Let_def eval_nat_numeral)

text \<open>
  Claim C2 says that a ripple of strength 1 added at (0, 0) at time 0 gives a non-zero
  displacement at (0, 0) at time 0. The ripple is packed into slot 0, but the shader
  counts a slot only when its age is strictly positive, so the sum is 0.
\<close>

theorem ripple_at_origin_time_zero_is_zero:
  "rippleSum (0, 0)
     (useFrame 0 0 (ripples (addRipple ''ripple-0-k3j9x2m1q'' 0 (0, 0) 1 initialState)) initialUniforms)
   = 0"
proof -
  have "ripples (addRipple ''ripple-0-k3j9x2m1q'' 0 (0, 0) 1 initialState)
        = [\<lparr>ripple_id = ''ripple-0-k3j9x2m1q'', ripple_position = (0, 0), strength = 1, time = 0\<rparr>]"
    by (simp add: addRipple_def initialState_def slice_last_def)
  then show ?thesis
    by (simp add: rippleSum_single initialUniforms_def)
qed

text \<open>
  Claim C2, as the code has it: a ripple of any strength is added at (0, 0) at time 0
  (clock reading 0 ms); the ripple sum sampled at (0, 0) is exactly 0 in a frame at
  time 0 (elapsed time 0 s, clock 0 ms), and exactly 0 in a frame at 6 s (elapsed
  time 6 s, clock 6000 ms). The wave itself is also 0 at distance 0 and age 0.
\<close>

theorem ripple_end_to_end:
  "let rs = ripples (addRipple newId 0 (0, 0) str initialState)
   in rippleSum (0, 0) (useFrame 0 0 rs (frames fs)) = 0
    \<and> rippleSum (0, 0) (useFrame 6 6000 rs (frames fs)) = 0
    \<and> calculateRipple (0, 0) (0, 0) str 0 = 0"
proof -
  have "ripples (addRipple newId 0 (0, 0) str initialState)
        = [\<lparr>ripple_id = newId, ripple_position = (0, 0), strength = str, time = 0\<rparr>]"
    by (simp add: addRipple_def initialState_def slice_last_def)
  then show ?thesis
    using frames_lengths [of fs]
    by (simp add: rippleSum_single calculateRipple_def distance2_def)
qed

section \<open>The particle system: targets, reset, force fields\<close>

text \<open>
  Claim C7. \<open>setTargetPositions\<close> with an array whose length is not \<open>count * 3\<close> warns
  on the console and returns: the system, its stored targets included, is exactly as
  before, no array is written, and nothing is thrown.
\<close>

theorem setTargetPositions_mismatch_rejected:
  assumes "length (h ! targets) \<noteq> count sys * 3"
  shows "setTargetPositions targets h sys = ([''Target positions count mismatch''], sys)"
  using assms by (simp add: setTargetPositions_def)

theorem setTargetPositions_mismatch_rejected_witness:
  "length (exampleHeap ! 6) \<noteq> count exampleSystem * 3
   \<and> snd (setTargetPositions 6 exampleHeap exampleSystem) = exampleSystem
   \<and> targetPositions (snd (setTargetPositions 6 exampleHeap exampleSystem)) = Some 5"
proof -
  have m: "length (exampleHeap ! 6) \<noteq> count exampleSystem * 3"
    by (simp add: exampleHeap_def exampleSystem_def)
  from setTargetPositions_mismatch_rejected [OF m] m show ?thesis
    by (simp add: exampleSystem_def)
qed

lemma length_store [simp]: "length (store a i v h) = length h"
  by (simp add: store_def)

lemma store_nth_same [simp]: "a < length h \<Longrightarrow> store a i v h ! a = (h ! a)[i := v]"
  by (simp add: store_def)

lemma store_nth_other [simp]: "b \<noteq> a \<Longrightarrow> store a i v h ! b = h ! b"
  by (simp add: store_def)

lemma initParticle_heap:
  assumes "wellFormed h sys"
  shows "snd (initParticle rnd sys i (h, k)) = k + 10"
    and "length (fst (initParticle rnd sys i (h, k))) = length h"
    and "fst (initParticle rnd sys i (h, k)) ! positions sys =
           (h ! positions sys)[i * 3 := initialPosition rnd (config sys) k ! 0,
                               i * 3 + 1 := initialPosition rnd (config sys) k ! 1,
                               i * 3 + 2 := initialPosition rnd (config sys) k ! 2]"
    and "fst (initParticle rnd sys i (h, k)) ! velocities sys =
           (h ! velocities sys)[i * 3 := initialVelocity rnd k ! 0,
                                i * 3 + 1 := initialVelocity rnd k ! 1,
                                i * 3 + 2 := initialVelocity rnd k ! 2]"
    and "fst (initParticle rnd sys i (h, k)) ! colors sys =
           (h ! colors sys)[i * 3 := initialColor rnd (config sys) k ! 0,
                            i * 3 + 1 := initialColor rnd (config sys) k ! 1,
                            i * 3 + 2 := initialColor rnd (config sys) k ! 2]"
    and "fst (initParticle rnd sys i (h, k)) ! sizes sys =
           (h ! sizes sys)[i := initialSize rnd (config sys) k]"
    and "fst (initParticle rnd sys i (h, k)) ! lifetimes sys = (h ! lifetimes sys)[i := 1]"
    and "b \<notin> {positions sys, velocities sys, colors sys, sizes sys, lifetimes sys}
           \<Longrightarrow> fst (initParticle rnd sys i (h, k)) ! b = h ! b"
proof -
  from assms have d:
    "positions sys \<noteq> velocities sys" "positions sys \<noteq> colors sys"
    "positions sys \<noteq> sizes sys" "positions sys \<noteq> lifetimes sys"
    "velocities sys \<noteq> colors sys" "velocities sys \<noteq> sizes sys"
    "velocities sys \<noteq> lifetimes sys" "colors sys \<noteq> sizes sys"
    "colors sys \<noteq> lifetimes sys" "sizes sys \<noteq> lifetimes sys"
    and l: "positions sys < length h" "velocities sys < length h" "colors sys < length h"
    "sizes sys < length h" "lifetimes sys < length h"
    by (simp_all add: wellFormed_def)
  note d' = d d [symmetric]
  show "snd (initParticle rnd sys i (h, k)) = k + 10"
    by (simp add: initParticle_def Let_def)
  show "length (fst (initParticle rnd sys i (h, k))) = length h"
    by (simp add: initParticle_def Let_def)
  show "fst (initParticle rnd sys i (h, k)) ! positions sys =
           (h ! positions sys)[i * 3 := initialPosition rnd (config sys) k ! 0,
                               i * 3 + 1 := initialPosition rnd (config sys) k ! 1,
                               i * 3 + 2 := initialPosition rnd (config sys) k ! 2]"
    using d' l by (simp add: initParticle_def Let_def initialPosition_def)
  show "fst (initParticle rnd sys i (h, k)) ! velocities sys =
           (h ! velocities sys)[i * 3 := initialVelocity rnd k ! 0,
                                i * 3 + 1 := initialVelocity rnd k ! 1,
                                i * 3 + 2 := initialVelocity rnd k ! 2]"
    using d' l by (simp add: initParticle_def Let_def initialVelocity_def)
  show "fst (initParticle rnd sys i (h, k)) ! colors sys =
           (h ! colors sys)[i * 3 := initialColor rnd (config sys) k ! 0,
                            i * 3 + 1 := initialColor rnd (config sys) k ! 1,
                            i * 3 + 2 := initialColor rnd (config sys) k ! 2]"
    using d' l by (simp add: initParticle_def Let_def initialColor_def)
  show "fst (initParticle rnd sys i (h, k)) ! sizes sys =
           (h ! sizes sys)[i := initialSize rnd (config sys) k]"
    using d' l by (simp add: initParticle_def Let_def initialSize_def)
  show "fst (initParticle rnd sys i (h, k)) ! lifetimes sys = (h ! lifetimes sys)[i := 1]"
    using d' l by (simp add: initParticle_def Let_def)
  show "fst (initParticle rnd sys i (h, k)) ! b = h ! b"
    if "b \<notin> {positions sys, velocities sys, colors sys, sizes sys, lifetimes sys}"
    using that by (simp add: initParticle_def Let_def)
qed


lemma initParticle_wellFormed:
  assumes "wellFormed h sys"
  shows "wellFormed (fst (initParticle rnd sys i (h, k))) sys"
  using assms initParticle_heap(2-7) [OF assms, where rnd = rnd and i = i and k = k]
  by (simp add: wellFormed_def)

lemma list3: "length xs = 3 \<Longrightarrow> [xs ! 0, xs ! Suc 0, xs ! 2] = xs"
  by (auto simp: length_Suc_conv eval_nat_numeral)

lemma length_initial [simp]:
  "length (initialPosition rnd cfg k) = 3" "length (initialVelocity rnd k) = 3"
  "length (initialColor rnd cfg k) = 3"
  by (simp_all add: initialPosition_def initialVelocity_def initialColor_def Let_def)

lemma take_update3:
  assumes "m + 3 \<le> length xs"
  shows "take (Suc (Suc (Suc m))) (xs[m := a, Suc m := b, Suc (Suc m) := c]) = take m xs @ [a, b, c]"
  using assms by (simp add: take_Suc_conv_app_nth nth_list_update)

lemma take_update1:
  assumes "n < length xs"
  shows "take (Suc n) (xs[n := a]) = take n xs @ [a]"
  using assms by (simp add: take_Suc_conv_app_nth)

lemma initializeParticles_prefix:
  assumes "wellFormed h sys" and "n \<le> count sys"
  shows "let hk = fold (initParticle rnd sys) [0..<n] (h, k); h' = fst hk
         in snd hk = k + 10 * n \<and> wellFormed h' sys \<and> length h' = length h
          \<and> (\<forall>b. b \<notin> {positions sys, velocities sys, colors sys, sizes sys, lifetimes sys}
                \<longrightarrow> h' ! b = h ! b)
          \<and> take (n * 3) (h' ! positions sys)
              = concat (map (\<lambda>i. initialPosition rnd (config sys) (k + 10 * i)) [0..<n])
          \<and> take (n * 3) (h' ! velocities sys)
              = concat (map (\<lambda>i. initialVelocity rnd (k + 10 * i)) [0..<n])
          \<and> take (n * 3) (h' ! colors sys)
              = concat (map (\<lambda>i. initialColor rnd (config sys) (k + 10 * i)) [0..<n])
          \<and> take n (h' ! sizes sys) = map (\<lambda>i. initialSize rnd (config sys) (k + 10 * i)) [0..<n]
          \<and> take n (h' ! lifetimes sys) = replicate n 1"
  using assms(2)
proof (induction n)
  case 0
  show ?case using assms(1) by simp
next
  case (Suc n)
  obtain h1 k1 where hk: "fold (initParticle rnd sys) [0..<n] (h, k) = (h1, k1)"
    by (cases "fold (initParticle rnd sys) [0..<n] (h, k)")
  from Suc have ih: "k1 = k + 10 * n" "wellFormed h1 sys" "length h1 = length h"
    "\<forall>b. b \<notin> {positions sys, velocities sys, colors sys, sizes sys, lifetimes sys}
                \<longrightarrow> h1 ! b = h ! b"
    "take (n * 3) (h1 ! positions sys)
              = concat (map (\<lambda>i. initialPosition rnd (config sys) (k + 10 * i)) [0..<n])"
    "take (n * 3) (h1 ! velocities sys)
              = concat (map (\<lambda>i. initialVelocity rnd (k + 10 * i)) [0..<n])"
    "take (n * 3) (h1 ! colors sys)
              = concat (map (\<lambda>i. initialColor rnd (config sys) (k + 10 * i)) [0..<n])"
    "take n (h1 ! sizes sys) = map (\<lambda>i. initialSize rnd (config sys) (k + 10 * i)) [0..<n]"
    "take n (h1 ! lifetimes sys) = replicate n 1"
    by (simp_all add: hk Let_def)
  from ih(2) Suc.prems have len:
    "n * 3 + 3 \<le> length (h1 ! positions sys)" "n * 3 + 3 \<le> length (h1 ! velocities sys)"
    "n * 3 + 3 \<le> length (h1 ! colors sys)" "n < length (h1 ! sizes sys)"
    "n < length (h1 ! lifetimes sys)"
    by (simp_all add: wellFormed_def)
  let ?h2 = "fst (initParticle rnd sys n (h1, k1))"
  have step: "fold (initParticle rnd sys) [0..<Suc n] (h, k) = initParticle rnd sys n (h1, k1)"
    by (simp add: hk)
  note facts = initParticle_heap [OF ih(2), where rnd = rnd and i = n and k = k1]
  have e: "Suc n * 3 = Suc (Suc (Suc (n * 3)))" by simp
  have "snd (initParticle rnd sys n (h1, k1)) = k + 10 * Suc n"
    using facts(1) ih(1) by simp
  moreover have "wellFormed ?h2 sys"
    using ih(2) by (rule initParticle_wellFormed)
  moreover have "length ?h2 = length h"
    using facts(2) ih(3) by simp
  moreover have "\<forall>b. b \<notin> {positions sys, velocities sys, colors sys, sizes sys, lifetimes sys}
                \<longrightarrow> ?h2 ! b = h ! b"
    using facts(8) ih(4) by simp
  moreover have "take (Suc n * 3) (?h2 ! positions sys)
              = concat (map (\<lambda>i. initialPosition rnd (config sys) (k + 10 * i)) [0..<Suc n])"
    unfolding facts(3) e using len(1) by (simp add: take_update3 ih(5) list3 ih(1))
  moreover have "take (Suc n * 3) (?h2 ! velocities sys)
              = concat (map (\<lambda>i. initialVelocity rnd (k + 10 * i)) [0..<Suc n])"
    unfolding facts(4) e using len(2) by (simp add: take_update3 ih(6) list3 ih(1))
  moreover have "take (Suc n * 3) (?h2 ! colors sys)
              = concat (map (\<lambda>i. initialColor rnd (config sys) (k + 10 * i)) [0..<Suc n])"
    unfolding facts(5) e using len(3) by (simp add: take_update3 ih(7) list3 ih(1))
  moreover have "take (Suc n) (?h2 ! sizes sys)
              = map (\<lambda>i. initialSize rnd (config sys) (k + 10 * i)) [0..<Suc n]"
    unfolding facts(6) by (simp only: take_update1 [OF len(4)] ih(8)) (simp add: ih(1))
  moreover have "take (Suc n) (?h2 ! lifetimes sys) = replicate (Suc n) 1"
    unfolding facts(7) by (simp only: take_update1 [OF len(5)] ih(9)) (simp add: replicate_append_same)
  ultimately show ?case
    unfolding step Let_def by blast
qed


lemma initializeParticles_arrays:
  assumes "wellFormed h sys"
  shows "let hk = initializeParticles rnd sys (h, k); h' = fst hk
         in snd hk = k + 10 * count sys \<and> wellFormed h' sys \<and> length h' = length h
          \<and> (\<forall>b. b \<notin> {positions sys, velocities sys, colors sys, sizes sys, lifetimes sys}
                \<longrightarrow> h' ! b = h ! b)
          \<and> h' ! positions sys
              = concat (map (\<lambda>i. initialPosition rnd (config sys) (k + 10 * i)) [0..<count sys])
          \<and> h' ! velocities sys
              = concat (map (\<lambda>i. initialVelocity rnd (k + 10 * i)) [0..<count sys])
          \<and> h' ! colors sys
              = concat (map (\<lambda>i. initialColor rnd (config sys) (k + 10 * i)) [0..<count sys])
          \<and> h' ! sizes sys = map (\<lambda>i. initialSize rnd (config sys) (k + 10 * i)) [0..<count sys]
          \<and> h' ! lifetimes sys = replicate (count sys) 1"
proof -
  let ?h = "fst (initializeParticles rnd sys (h, k))"
  note p = initializeParticles_prefix [OF assms order_refl, where rnd = rnd and k = k,
      unfolded Let_def, folded initializeParticles_def]
  from p have wf: "wellFormed ?h sys" by blast
  then have "take (count sys * 3) (?h ! positions sys) = ?h ! positions sys"
    "take (count sys * 3) (?h ! velocities sys) = ?h ! velocities sys"
    "take (count sys * 3) (?h ! colors sys) = ?h ! colors sys"
    "take (count sys) (?h ! sizes sys) = ?h ! sizes sys"
    "take (count sys) (?h ! lifetimes sys) = ?h ! lifetimes sys"
    by (simp_all add: wellFormed_def)
  with p show ?thesis unfolding Let_def by metis
qed

text \<open>
  Claim C10. \<open>reset()\<close> fills the five particle arrays again where they are: the
  system keeps the same five addresses, no array is allocated and none changes its
  length, every other array in the store is untouched, and the five arrays hold
  freshly drawn positions, velocities, colours and sizes and lifetime 1 for every
  particle. The target positions are back to null and the force fields are gone.
\<close>

theorem reset_reinitializes_in_place:
  assumes "wellFormed h sys"
  shows "let r = ParticlePhysicsSystem_reset rnd ((h, k), sys); h' = fst (fst r); sys' = snd r
         in positions sys' = positions sys \<and> velocities sys' = velocities sys
          \<and> colors sys' = colors sys \<and> sizes sys' = sizes sys \<and> lifetimes sys' = lifetimes sys
          \<and> count sys' = count sys \<and> config sys' = config sys
          \<and> length h' = length h \<and> wellFormed h' sys'
          \<and> (\<forall>b. b \<notin> {positions sys, velocities sys, colors sys, sizes sys, lifetimes sys}
                \<longrightarrow> h' ! b = h ! b)
          \<and> h' ! positions sys
              = concat (map (\<lambda>i. initialPosition rnd (config sys) (k + 10 * i)) [0..<count sys])
          \<and> h' ! velocities sys
              = concat (map (\<lambda>i. initialVelocity rnd (k + 10 * i)) [0..<count sys])
          \<and> h' ! colors sys
              = concat (map (\<lambda>i. initialColor rnd (config sys) (k + 10 * i)) [0..<count sys])
          \<and> h' ! sizes sys = map (\<lambda>i. initialSize rnd (config sys) (k + 10 * i)) [0..<count sys]
          \<and> h' ! lifetimes sys = replicate (count sys) 1
          \<and> targetPositions sys' = None \<and> forceFields sys' = []"
proof -
  note a = initializeParticles_arrays [OF assms, where rnd = rnd and k = k, unfolded Let_def]
  from a have "wellFormed (fst (initializeParticles rnd sys (h, k))) sys" by blast
  then have "wellFormed (fst (initializeParticles rnd sys (h, k)))
               (sys\<lparr>targetPositions := None, forceFields := []\<rparr>)"
    by (simp add: wellFormed_def)
  with a show ?thesis
    by (simp add: ParticlePhysicsSystem_reset_def Let_def)
qed

theorem reset_reinitializes_in_place_witness:
  "wellFormed exampleHeap exampleSystem
   \<and> (let r = ParticlePhysicsSystem_reset (\<lambda>n. 1 / 2) ((exampleHeap, 0), exampleSystem)
      in positions (snd r) = 0 \<and> length (fst (fst r)) = 7
       \<and> fst (fst r) ! 4 = [1] \<and> fst (fst r) ! 5 = [7, 8, 9]
       \<and> targetPositions (snd r) = None \<and> forceFields (snd r) = [])"
proof -
  have wf: "wellFormed exampleHeap exampleSystem"
    by (simp add: wellFormed_def exampleHeap_def exampleSystem_def)
  from reset_reinitializes_in_place [OF wf, where rnd = "\<lambda>n. 1 / 2" and k = 0]
  have "let r = ParticlePhysicsSystem_reset (\<lambda>n. 1 / 2) ((exampleHeap, 0), exampleSystem)
      in positions (snd r) = 0 \<and> length (fst (fst r)) = 7
       \<and> fst (fst r) ! 4 = [1] \<and> fst (fst r) ! 5 = [7, 8, 9]
       \<and> targetPositions (snd r) = None \<and> forceFields (snd r) = []"
    by (simp add: Let_def exampleHeap_def exampleSystem_def)
  with wf show ?thesis by simp
qed

text \<open>The constructor establishes the invariant that \<open>reset\<close> relies on.\<close>

lemma ParticlePhysicsSystem_new_wellFormed:
  "wellFormed (fst (fst (ParticlePhysicsSystem_new rnd cfg (h, k))))
              (snd (ParticlePhysicsSystem_new rnd cfg (h, k)))"
proof -
  let ?n = "pc_count cfg"
  let ?h = "h @ [replicate (?n * 3) 0, replicate (?n * 3) 0, replicate (?n * 3) 0,
                 replicate ?n 0, replicate ?n 0]"
  let ?sys = "\<lparr>positions = length h, velocities = Suc (length h), colors = Suc (Suc (length h)),
               sizes = Suc (Suc (Suc (length h))), lifetimes = Suc (Suc (Suc (Suc (length h)))),
               targetPositions = None, count = ?n, forceFields = [], config = cfg,
               gridSize = 1, grid = Map.empty\<rparr>"
  have new: "ParticlePhysicsSystem_new rnd cfg (h, k) = (initializeParticles rnd ?sys (?h, k), ?sys)"
    by (simp add: ParticlePhysicsSystem_new_def alloc_def Let_def)
  have "wellFormed ?h ?sys"
    by (simp add: wellFormed_def nth_append)
  from initializeParticles_arrays [OF this, where rnd = rnd and k = k]
  show ?thesis by (simp add: new Let_def)
qed

text \<open>Every other method keeps it.\<close>

lemma length_store_nth [simp]: "length (store a i v h ! b) = length (h ! b)"
  by (cases "a < length h"; cases "b = a") (simp_all add: store_def list_update_beyond)

lemma wellFormed_store [simp]: "wellFormed (store a i v h) sys = wellFormed h sys"
  by (simp add: wellFormed_def)

lemma wellFormed_grid [simp]: "wellFormed h (sys\<lparr>grid := g\<rparr>) = wellFormed h sys"
  by (simp add: wellFormed_def)

lemma updateParticle_wellFormed:
  assumes "wellFormed h sys"
  shows "wellFormed (fst (updateParticle dt i (h, sys))) (snd (updateParticle dt i (h, sys)))"
  unfolding updateParticle_def Let_def
  by (simp only: prod.case fst_conv snd_conv wellFormed_store wellFormed_grid assms)

lemma fold_updateParticle_wellFormed:
  assumes "wellFormed (fst hs) (snd hs)"
  shows "wellFormed (fst (fold (updateParticle dt) is hs)) (snd (fold (updateParticle dt) is hs))"
  using assms
proof (induction "is" arbitrary: hs)
  case Nil
  then show ?case by simp
next
  case (Cons i "is")
  obtain h sys where hs: "hs = (h, sys)" by (cases hs)
  with Cons.prems have "wellFormed (fst (updateParticle dt i hs)) (snd (updateParticle dt i hs))"
    by (simp add: updateParticle_wellFormed)
  then show ?case by (simp add: Cons.IH)
qed

lemma ParticlePhysicsSystem_update_wellFormed:
  assumes "wellFormed h sys"
  shows "wellFormed (fst (ParticlePhysicsSystem_update deltaTime (h, sys)))
                    (snd (ParticlePhysicsSystem_update deltaTime (h, sys)))"
  using assms
  by (simp add: ParticlePhysicsSystem_update_def Let_def fold_updateParticle_wellFormed)

lemma setTargetPositions_wellFormed:
  "wellFormed h sys \<Longrightarrow> wellFormed h (snd (setTargetPositions targets h sys))"
  by (simp add: setTargetPositions_def wellFormed_def)

lemma forceFields_wellFormed:
  "wellFormed h sys \<Longrightarrow> wellFormed h (addForceField field sys)"
  "wellFormed h sys \<Longrightarrow> wellFormed h (clearForceFields sys)"
  by (simp_all add: addForceField_def clearForceFields_def wellFormed_def)

lemma sqrt_example: "sqrt (625050001 / 100000000) = 25001 / 10000"
proof -
  have "(625050001 / 100000000 :: real) = (25001 / 10000)\<^sup>2"
    by (simp add: power2_eq_square)
  then have "sqrt (625050001 / 100000000) = \<bar>25001 / 10000 :: real\<bar>"
    by (simp only: real_sqrt_abs)
  then show ?thesis by simp
qed

lemma vortex_perpendicular:
  assumes "ff_type field = vortex"
  shows "case applyField (px, py, pz) field (0, 0, 0) of (fx, fy, fz) \<Rightarrow>
           fx * (vec_x (ff_position field) - px) + fy * (vec_y (ff_position field) - py)
             + fz * (vec_z (ff_position field) - pz) = 0"
  using assms by (simp add: applyField_def Let_def algebra_simps)

text \<open>
  Claim C5 asks the vortex force to be scaled as the attract and repel forces are: a
  direction divided by the guarded distance, times \<open>strength * (1 - dist / radius)\<close>.
  The force is perpendicular to the radial direction (lemma above), but the vortex
  branch multiplies the raw \<open>(- dy, dx)\<close> by the falloff and never divides by the
  distance. For a particle at the origin and a vortex of strength 1 and radius 5
  centred at (2.4999, 0, 0), where the guarded distance is 2.5001, the force is
  (0, 1.249900002, 0); the attract branch at the same place gives a force of
  magnitude 0.49994.
\<close>

theorem vortex_force_not_normalised:
  "applyField (0, 0, 0) exampleVortex (0, 0, 0) = (0, 1249900002 / 1000000000, 0)
   \<and> applyField (0, 0, 0) (exampleVortex\<lparr>ff_type := attract\<rparr>) (0, 0, 0)
       = ((24999 / 25001) * (24999 / 50000), 0, 0)"
  by (simp add: applyField_def exampleVortex_def Let_def sqrt_example)

end
